theory Spec2Isabelle
  imports Main
begin

section \<open>Data model of \<^verbatim>\<open>App.tsx\<close>\<close>

text \<open>
  JavaScript strings are modelled as \<open>string\<close>; the non-ASCII literals of the source are
  written as the bytes of their UTF-8 encoding. The only string operations of the source
  are concatenation and \<^verbatim>\<open>split(',')\<close>, which act alike on code units and on UTF-8
  bytes (the byte \<open>0x2C\<close> occurs in UTF-8 only as the comma itself).

  A DOM \<^verbatim>\<open>File\<close> is represented by its name and its declared media type
  (\<^verbatim>\<open>file.type\<close>), the only property the component reads.
\<close>

record File =
  name :: string
  type :: string

text \<open>
  \<^verbatim>\<open>interface FileWithPreview { id: string; file: File; preview: string }\<close>.
  The field \<open>preview\<close> is filled with \<^verbatim>\<open>reader.result as string\<close>; at run time
  \<^verbatim>\<open>reader.result\<close> is \<^verbatim>\<open>null\<close> when the read failed, which the cast hides.
  \<open>None\<close> stands for that \<^verbatim>\<open>null\<close>.
\<close>

record FileWithPreview =
  id' :: string
  "file" :: File
  preview :: "string option"

text \<open>\<^verbatim>\<open>interface EstimationResult { text: string }\<close>\<close>

record EstimationResult =
  text' :: string

text \<open>
  \<^verbatim>\<open>interface GeminiImagePart { inlineData: { mimeType: string; data: string } }\<close>.
  \<open>data\<close> is \<^verbatim>\<open>split(',')[1]\<close>, which is \<^verbatim>\<open>undefined\<close> (\<open>None\<close>) when
  the array has a single element.
\<close>

record InlineData =
  mimeType :: string
  data :: "string option"

record GeminiImagePart =
  inlineData :: InlineData

text \<open>The four \<^verbatim>\<open>useState\<close> cells of the component.\<close>

record state =
  uploadedImages :: "FileWithPreview list"
  estimationResult :: "EstimationResult option"
  isLoading :: bool
  error :: "string option"

definition initial :: state where
  "initial = \<lparr>uploadedImages = [], estimationResult = None, isLoading = False, error = None\<rparr>"

text \<open>
  A thrown JavaScript value: the handler only asks whether it is an \<^verbatim>\<open>Error\<close>, and
  then reads its \<^verbatim>\<open>message\<close>.
\<close>

datatype thrown = Error string | NonError

text \<open>
  What the component takes from outside itself: the build-time variable
  \<^verbatim>\<open>import.meta.env.VITE_GEMINI_API_KEY\<close> (\<open>None\<close> when undefined), the constant
  \<^verbatim>\<open>DEMOLITION_ESTIMATE_PROMPT\<close> of \<^verbatim>\<open>./constants\<close>, the service function
  \<^verbatim>\<open>generateDemolitionEstimate\<close> of \<^verbatim>\<open>./services/geminiService\<close> (its settled outcome:
  \<open>Inl\<close> a rejection, \<open>Inr\<close> the text), and the message the JavaScript engine puts in the
  \<^verbatim>\<open>TypeError\<close> it throws when a property of \<^verbatim>\<open>null\<close> is read.
\<close>

record env =
  VITE_GEMINI_API_KEY :: "string option"
  DEMOLITION_ESTIMATE_PROMPT :: string
  generateDemolitionEstimate :: "string \<Rightarrow> GeminiImagePart list \<Rightarrow> thrown + string"
  nullPropertyMessage :: string

section \<open>Removing an image\<close>

text \<open>
  \<^verbatim>\<open>setUploadedImages(prevImages => prevImages.filter(img => img.id !== imageId))\<close>
\<close>

definition handleRemoveImage :: "string \<Rightarrow> state \<Rightarrow> state" where
  "handleRemoveImage imageId s =
     s\<lparr>uploadedImages := filter (\<lambda>img. id' img \<noteq> imageId) (uploadedImages s)\<rparr>"

section \<open>Uploading images\<close>

text \<open>
  One \<^verbatim>\<open>loadend\<close> event of a \<^verbatim>\<open>FileReader\<close>: the file the reader was started on
  (the \<^verbatim>\<open>file\<close> captured by the callback), \<^verbatim>\<open>reader.result\<close> at that moment (the
  data URL, or \<^verbatim>\<open>null\<close> after a failed read: \<^verbatim>\<open>loadend\<close> fires after success and
  after failure alike), and the value \<^verbatim>\<open>crypto.randomUUID()\<close> returns in the callback.
  The readers of a batch run concurrently; the order of the events of a batch is the
  order in which the reads finish.
\<close>

record loadend =
  target :: File
  result :: "string option"
  uuid :: string

text \<open>The object pushed onto \<^verbatim>\<open>newImages\<close> by the callback.\<close>

definition newImage :: "loadend \<Rightarrow> FileWithPreview" where
  "newImage ev = \<lparr>id' = uuid ev, file = target ev, preview = result ev\<rparr>"

text \<open>
  The callback \<^verbatim>\<open>reader.onloadend\<close>, on the batch-local array \<^verbatim>\<open>newImages\<close> and the
  component state:
  \<^verbatim>\<open>newImages.push({...});
  if (newImages.length === files.length) {
    setUploadedImages(prevImages => [...prevImages, ...newImages].slice(0, 10)); }\<close>
\<close>

definition onloadend ::
  "File list \<Rightarrow> loadend \<Rightarrow> FileWithPreview list \<times> state \<Rightarrow> FileWithPreview list \<times> state" where
  "onloadend files ev = (\<lambda>(newImages, s).
     let newImages = newImages @ [newImage ev] in
     if length newImages = length files
     then (newImages, s\<lparr>uploadedImages := take 10 (uploadedImages s @ newImages)\<rparr>)
     else (newImages, s))"

text \<open>
  \<^verbatim>\<open>handleImageUpload\<close>: \<^verbatim>\<open>event.target.files\<close> may be \<^verbatim>\<open>null\<close> (\<open>None\<close>); otherwise
  \<^verbatim>\<open>newImages\<close> starts empty, a reader is started on every file, and the callbacks run
  in the order of the events \<open>evs\<close>.
\<close>

definition readFiles ::
  "File list \<Rightarrow> loadend list \<Rightarrow> state \<Rightarrow> FileWithPreview list \<times> state" where
  "readFiles files evs s = fold (onloadend files) evs ([], s)"

definition handleImageUpload :: "File list option \<Rightarrow> loadend list \<Rightarrow> state \<Rightarrow> state" where
  "handleImageUpload files evs s =
     (case files of None \<Rightarrow> s | Some fs \<Rightarrow> snd (readFiles fs evs s))"

section \<open>Requesting an estimate\<close>

text \<open>The message literals of \<^verbatim>\<open>getEstimate\<close>, as UTF-8 bytes.\<close>

definition NO_IMAGES_MESSAGE :: string where
  "NO_IMAGES_MESSAGE = [
     CHR 0xE7, CHR 0x94, CHR 0xBB, CHR 0xE5, CHR 0x83, CHR 0x8F, CHR 0xE3, CHR 0x82,
     CHR 0x92, CHR 0x31, CHR 0xE6, CHR 0x9E, CHR 0x9A, CHR 0xE4, CHR 0xBB, CHR 0xA5,
     CHR 0xE4, CHR 0xB8, CHR 0x8A, CHR 0xE3, CHR 0x82, CHR 0xA2, CHR 0xE3, CHR 0x83,
     CHR 0x83, CHR 0xE3, CHR 0x83, CHR 0x97, CHR 0xE3, CHR 0x83, CHR 0xAD, CHR 0xE3,
     CHR 0x83, CHR 0xBC, CHR 0xE3, CHR 0x83, CHR 0x89, CHR 0xE3, CHR 0x81, CHR 0x97,
     CHR 0xE3, CHR 0x81, CHR 0xA6, CHR 0xE3, CHR 0x81, CHR 0x8F, CHR 0xE3, CHR 0x81,
     CHR 0xA0, CHR 0xE3, CHR 0x81, CHR 0x95, CHR 0xE3, CHR 0x81, CHR 0x84, CHR 0xE3,
     CHR 0x80, CHR 0x82]"

definition API_KEY_MESSAGE :: string where
  "API_KEY_MESSAGE = [
     CHR 0x41, CHR 0x50, CHR 0x49, CHR 0xE3, CHR 0x82, CHR 0xAD, CHR 0xE3, CHR 0x83,
     CHR 0xBC, CHR 0xE3, CHR 0x81, CHR 0x8C, CHR 0xE8, CHR 0xA8, CHR 0xAD, CHR 0xE5,
     CHR 0xAE, CHR 0x9A, CHR 0xE3, CHR 0x81, CHR 0x95, CHR 0xE3, CHR 0x82, CHR 0x8C,
     CHR 0xE3, CHR 0x81, CHR 0xA6, CHR 0xE3, CHR 0x81, CHR 0x84, CHR 0xE3, CHR 0x81,
     CHR 0xBE, CHR 0xE3, CHR 0x81, CHR 0x9B, CHR 0xE3, CHR 0x82, CHR 0x93, CHR 0xE3,
     CHR 0x80, CHR 0x82, CHR 0xE7, CHR 0x92, CHR 0xB0, CHR 0xE5, CHR 0xA2, CHR 0x83,
     CHR 0xE5, CHR 0xA4, CHR 0x89, CHR 0xE6, CHR 0x95, CHR 0xB0, CHR 0x20, CHR 0x41,
     CHR 0x50, CHR 0x49, CHR 0x5F, CHR 0x4B, CHR 0x45, CHR 0x59, CHR 0x20, CHR 0xE3,
     CHR 0x82, CHR 0x92, CHR 0xE8, CHR 0xA8, CHR 0xAD, CHR 0xE5, CHR 0xAE, CHR 0x9A,
     CHR 0xE3, CHR 0x81, CHR 0x97, CHR 0xE3, CHR 0x81, CHR 0xA6, CHR 0xE3, CHR 0x81,
     CHR 0x8F, CHR 0xE3, CHR 0x81, CHR 0xA0, CHR 0xE3, CHR 0x81, CHR 0x95, CHR 0xE3,
     CHR 0x81, CHR 0x84, CHR 0xE3, CHR 0x80, CHR 0x82]"

definition ERROR_MESSAGE_PREFIX :: string where
  "ERROR_MESSAGE_PREFIX = [
     CHR 0xE7, CHR 0x8F, CHR 0xBE, CHR 0xE8, CHR 0xAA, CHR 0xBF, CHR 0xE4, CHR 0xB8,
     CHR 0xAD, CHR 0xE3, CHR 0x81, CHR 0xAB, CHR 0xE3, CHR 0x82, CHR 0xA8, CHR 0xE3,
     CHR 0x83, CHR 0xA9, CHR 0xE3, CHR 0x83, CHR 0xBC, CHR 0xE3, CHR 0x81, CHR 0x8C,
     CHR 0xE7, CHR 0x99, CHR 0xBA, CHR 0xE7, CHR 0x94, CHR 0x9F, CHR 0xE3, CHR 0x81,
     CHR 0x97, CHR 0xE3, CHR 0x81, CHR 0xBE, CHR 0xE3, CHR 0x81, CHR 0x97, CHR 0xE3,
     CHR 0x81, CHR 0x9F, CHR 0x3A, CHR 0x20]"

definition UNKNOWN_ERROR_MESSAGE :: string where
  "UNKNOWN_ERROR_MESSAGE = [
     CHR 0xE7, CHR 0x8F, CHR 0xBE, CHR 0xE8, CHR 0xAA, CHR 0xBF, CHR 0xE4, CHR 0xB8,
     CHR 0xAD, CHR 0xE3, CHR 0x81, CHR 0xAB, CHR 0xE4, CHR 0xB8, CHR 0x8D, CHR 0xE6,
     CHR 0x98, CHR 0x8E, CHR 0xE3, CHR 0x81, CHR 0xAA, CHR 0xE3, CHR 0x82, CHR 0xA8,
     CHR 0xE3, CHR 0x83, CHR 0xA9, CHR 0xE3, CHR 0x83, CHR 0xBC, CHR 0xE3, CHR 0x81,
     CHR 0x8C, CHR 0xE7, CHR 0x99, CHR 0xBA, CHR 0xE7, CHR 0x94, CHR 0x9F, CHR 0xE3,
     CHR 0x81, CHR 0x97, CHR 0xE3, CHR 0x81, CHR 0xBE, CHR 0xE3, CHR 0x81, CHR 0x97,
     CHR 0xE3, CHR 0x81, CHR 0x9F, CHR 0xE3, CHR 0x80, CHR 0x82]"

text \<open>
  \<^verbatim>\<open>String.prototype.split\<close> with a one-character separator: the pieces between the
  occurrences of the separator, at least one piece (\<^verbatim>\<open>"".split(",")\<close> is \<^verbatim>\<open>[""]\<close>).
\<close>

fun split :: "char \<Rightarrow> string \<Rightarrow> string list" where
  "split c [] = [[]]"
| "split c (x # xs) =
     (if x = c then [] # split c xs
      else (case split c xs of [] \<Rightarrow> [[x]] | p # ps \<Rightarrow> (x # p) # ps))"

text \<open>Array indexing: \<^verbatim>\<open>undefined\<close> (\<open>None\<close>) out of range.\<close>

definition at :: "'a list \<Rightarrow> nat \<Rightarrow> 'a option" where
  "at xs i = (if i < length xs then Some (xs ! i) else None)"

text \<open>
  The callback of \<^verbatim>\<open>uploadedImages.map\<close>:
  \<^verbatim>\<open>img => ({ inlineData: { mimeType: img.file.type, data: img.preview.split(',')[1] } })\<close>.
  Reading \<^verbatim>\<open>split\<close> of a \<^verbatim>\<open>null\<close> preview throws a \<^verbatim>\<open>TypeError\<close>.
\<close>

definition imagePart :: "env \<Rightarrow> FileWithPreview \<Rightarrow> thrown + GeminiImagePart" where
  "imagePart e img =
     (case preview img of
        None \<Rightarrow> Inl (Error (nullPropertyMessage e))
      | Some p \<Rightarrow>
          Inr \<lparr>inlineData = \<lparr>mimeType = type (file img), data = at (split (CHR '','') p) 1\<rparr>\<rparr>)"

text \<open>\<^verbatim>\<open>Array.prototype.map\<close> with a callback that may throw: the first throw ends it.\<close>

fun map_throw :: "('a \<Rightarrow> thrown + 'b) \<Rightarrow> 'a list \<Rightarrow> thrown + 'b list" where
  "map_throw f [] = Inr []"
| "map_throw f (x # xs) =
     (case f x of
        Inl err \<Rightarrow> Inl err
      | Inr y \<Rightarrow> (case map_throw f xs of Inl err \<Rightarrow> Inl err | Inr ys \<Rightarrow> Inr (y # ys)))"

text \<open>\<^verbatim>\<open>!import.meta.env.VITE_GEMINI_API_KEY\<close>: undefined and the empty string are falsy.\<close>

definition falsy :: "string option \<Rightarrow> bool" where
  "falsy v = (case v of None \<Rightarrow> True | Some k \<Rightarrow> k = [])"

text \<open>The \<^verbatim>\<open>catch (err)\<close> block and the \<^verbatim>\<open>finally\<close> block.\<close>

definition catch_block :: "thrown \<Rightarrow> state \<Rightarrow> state" where
  "catch_block err s =
     (case err of
        Error message \<Rightarrow> s\<lparr>error := Some (ERROR_MESSAGE_PREFIX @ message)\<rparr>
      | NonError \<Rightarrow> s\<lparr>error := Some UNKNOWN_ERROR_MESSAGE\<rparr>)"

definition finally_block :: "state \<Rightarrow> state" where
  "finally_block s = s\<lparr>isLoading := False\<rparr>"

text \<open>
  \<^verbatim>\<open>getEstimate\<close> is an \<^verbatim>\<open>async\<close> function. It runs without interruption up to its
  single \<^verbatim>\<open>await\<close>: either it returns before (\<open>Done\<close>, the network client was not
  called), or it has called \<^verbatim>\<open>generateDemolitionEstimate\<close> with the two arguments
  recorded in \<open>Awaiting\<close> and is suspended in the state recorded there.
\<close>

datatype progress = Done state | Awaiting state string "GeminiImagePart list"

definition getEstimate_sync :: "env \<Rightarrow> state \<Rightarrow> progress" where
  "getEstimate_sync e s =
     (if length (uploadedImages s) = 0 then Done (s\<lparr>error := Some NO_IMAGES_MESSAGE\<rparr>)
      else
        let s1 = s\<lparr>isLoading := True\<rparr>;
            s2 = s1\<lparr>error := None\<rparr>;
            s3 = s2\<lparr>estimationResult := None\<rparr>;
            s4 = (if falsy (VITE_GEMINI_API_KEY e)
                  then (s3\<lparr>error := Some API_KEY_MESSAGE\<rparr>)\<lparr>isLoading := False\<rparr>
                  else s3)
        in case map_throw (imagePart e) (uploadedImages s) of
             Inl err \<Rightarrow> Done (finally_block (catch_block err s4))
           | Inr imageParts \<Rightarrow> Awaiting s4 (DEMOLITION_ESTIMATE_PROMPT e) imageParts)"

text \<open>
  The rest of \<^verbatim>\<open>getEstimate\<close>, run when the awaited call settles with \<open>r\<close>, on the state
  of that moment (the setters do not read the state).
\<close>

definition getEstimate_resume :: "thrown + string \<Rightarrow> state \<Rightarrow> state" where
  "getEstimate_resume r s =
     finally_block
       (case r of
          Inr resultText \<Rightarrow> s\<lparr>estimationResult := Some \<lparr>text' = resultText\<rparr>\<rparr>
        | Inl err \<Rightarrow> catch_block err s)"

text \<open>A whole run of \<^verbatim>\<open>getEstimate\<close> with no other event in between.\<close>

definition getEstimate :: "env \<Rightarrow> state \<Rightarrow> state" where
  "getEstimate e s =
     (case getEstimate_sync e s of
        Done s' \<Rightarrow> s'
      | Awaiting s' prompt imageParts \<Rightarrow>
          getEstimate_resume (generateDemolitionEstimate e prompt imageParts) s')"

text \<open>The arguments of the network call a run makes, if it makes one.\<close>

definition request :: "progress \<Rightarrow> (string \<times> GeminiImagePart list) option" where
  "request p = (case p of Done s \<Rightarrow> None | Awaiting s prompt imageParts \<Rightarrow> Some (prompt, imageParts))"

section \<open>The component as a transition system\<close>

text \<open>
  Modelled from the spec: the outcomes with which a call of
  \<^verbatim>\<open>generateDemolitionEstimate\<close> can settle. The function is defined in
  \<^verbatim>\<open>./services/geminiService\<close>, which is not among the sources. Section 4.4 of the
  specification: the call either yields the full result text or fails entirely, and a
  missing credential is one of its failure modes. So a call may always fail, and it
  yields a text only when the credential \<^verbatim>\<open>VITE_GEMINI_API_KEY\<close> is present.
\<close>

definition client_outcome :: "env \<Rightarrow> thrown + string \<Rightarrow> bool" where
  "client_outcome e r =
     (case r of Inl err \<Rightarrow> True | Inr resultText \<Rightarrow> \<not> falsy (VITE_GEMINI_API_KEY e))"

text \<open>
  A configuration is the component state and the number of calls of
  \<^verbatim>\<open>generateDemolitionEstimate\<close> that have not settled yet. The controls are enabled as
  the JSX says: the remove buttons have \<^verbatim>\<open>disabled={isLoading}\<close>, the estimate button has
  \<^verbatim>\<open>disabled={isLoading || uploadedImages.length === 0}\<close>, so \<^verbatim>\<open>getEstimate\<close> runs only
  when the component is not loading and holds an image. A batch of files chosen while
  the file input was enabled may finish reading at any later moment, so the completion of
  an upload is a step of every configuration. An outstanding call settles with any
  outcome of the client.
\<close>

record config =
  st :: state
  outstanding :: nat

inductive reachable :: "env \<Rightarrow> config \<Rightarrow> bool" for e :: env where
  start: "reachable e \<lparr>st = initial, outstanding = 0\<rparr>"
| upload: "reachable e c \<Longrightarrow> reachable e (c\<lparr>st := handleImageUpload files evs (st c)\<rparr>)"
| remove: "reachable e c \<Longrightarrow> \<not> isLoading (st c) \<Longrightarrow>
     reachable e (c\<lparr>st := handleRemoveImage imageId (st c)\<rparr>)"
| click_returns: "reachable e c \<Longrightarrow> \<not> isLoading (st c) \<Longrightarrow> uploadedImages (st c) \<noteq> [] \<Longrightarrow>
     getEstimate_sync e (st c) = Done s' \<Longrightarrow> reachable e (c\<lparr>st := s'\<rparr>)"
| click_awaits: "reachable e c \<Longrightarrow> \<not> isLoading (st c) \<Longrightarrow> uploadedImages (st c) \<noteq> [] \<Longrightarrow>
     getEstimate_sync e (st c) = Awaiting s' prompt imageParts \<Longrightarrow>
     reachable e \<lparr>st = s', outstanding = Suc (outstanding c)\<rparr>"
| settle: "reachable e c \<Longrightarrow> 0 < outstanding c \<Longrightarrow> client_outcome e r \<Longrightarrow>
     reachable e \<lparr>st = getEstimate_resume r (st c), outstanding = outstanding c - 1\<rparr>"

text \<open>The state in which a run of \<^verbatim>\<open>getEstimate\<close> returned or is suspended.\<close>

definition state_of :: "progress \<Rightarrow> state" where
  "state_of p = (case p of Done s \<Rightarrow> s | Awaiting s prompt imageParts \<Rightarrow> s)"

section \<open>Concrete inputs\<close>

definition png :: File where
  "png = \<lparr>name = ''front.png'', type = ''image/png''\<rparr>"

definition jpg :: File where
  "jpg = \<lparr>name = ''side.jpg'', type = ''image/jpeg''\<rparr>"

definition png_read :: loadend where
  "png_read = \<lparr>target = png, result = Some ''data:image/png;base64,iVBORw=='', uuid = ''id-1''\<rparr>"

definition jpg_read :: loadend where
  "jpg_read = \<lparr>target = jpg, result = Some ''data:image/jpeg;base64,/9j/4A=='', uuid = ''id-2''\<rparr>"

definition png_failed :: loadend where
  "png_failed = \<lparr>target = png, result = None, uuid = ''id-3''\<rparr>"

definition with_key :: env where
  "with_key = \<lparr>VITE_GEMINI_API_KEY = Some ''key'', DEMOLITION_ESTIMATE_PROMPT = ''prompt'',
     generateDemolitionEstimate = (\<lambda>prompt imageParts. Inr ''estimate''),
     nullPropertyMessage = ''null''\<rparr>"

definition without_key :: env where
  "without_key = with_key\<lparr>VITE_GEMINI_API_KEY := None,
     generateDemolitionEstimate := (\<lambda>prompt imageParts. Inl (Error ''API key not valid''))\<rparr>"

definition one_image :: state where
  "one_image = handleImageUpload (Some [png]) [png_read] initial"






definition twelve :: "loadend list" where
  "twelve = replicate 6 png_read @ replicate 6 jpg_read"

section \<open>Facts about the upload callback\<close>

lemma filter_other_ids: "i \<notin> f ` set xs \<Longrightarrow> filter (\<lambda>x. f x \<noteq> i) xs = xs"
  by (induction xs) auto

lemma fold_onloadend_pending:
  "length acc + length evs < length fs \<Longrightarrow>
   fold (onloadend fs) evs (acc, s) = (acc @ map newImage evs, s)"
  by (induction evs arbitrary: acc) (simp_all add: onloadend_def Let_def)

lemma fold_onloadend_complete:
  "length acc + length evs = length fs \<Longrightarrow> evs \<noteq> [] \<Longrightarrow>
   fold (onloadend fs) evs (acc, s) =
     (acc @ map newImage evs,
      s\<lparr>uploadedImages := take 10 (uploadedImages s @ acc @ map newImage evs)\<rparr>)"
proof (induction evs arbitrary: acc)
  case Nil
  then show ?case by simp
next
  case (Cons ev evs)
  show ?case
  proof (cases "evs = []")
    case True
    with Cons.prems show ?thesis by (simp add: onloadend_def Let_def)
  next
    case False
    from Cons.prems have "length (acc @ [newImage ev]) + length evs = length fs" by simp
    note step = Cons.IH [OF this False]
    from Cons.prems False have "Suc (length acc) \<noteq> length fs" by (cases evs) auto
    then have "onloadend fs ev (acc, s) = (acc @ [newImage ev], s)"
      by (simp add: onloadend_def Let_def)
    with step show ?thesis by simp
  qed
qed

lemma fold_onloadend_frame:
  "estimationResult (snd (fold (onloadend fs) evs (acc, s))) = estimationResult s \<and>
   isLoading (snd (fold (onloadend fs) evs (acc, s))) = isLoading s \<and>
   error (snd (fold (onloadend fs) evs (acc, s))) = error s"
  by (induction evs arbitrary: acc s) (simp_all add: onloadend_def Let_def)

lemma fold_onloadend_size:
  "length (uploadedImages s) \<le> 10 \<Longrightarrow>
   length (uploadedImages (snd (fold (onloadend fs) evs (acc, s)))) \<le> 10"
  by (induction evs arbitrary: acc s) (simp_all add: onloadend_def Let_def)

lemma handleImageUpload_frame:
  "estimationResult (handleImageUpload files evs s) = estimationResult s \<and>
   isLoading (handleImageUpload files evs s) = isLoading s \<and>
   error (handleImageUpload files evs s) = error s"
  by (cases files) (simp_all add: handleImageUpload_def readFiles_def fold_onloadend_frame)

lemma handleImageUpload_size:
  "length (uploadedImages s) \<le> 10 \<Longrightarrow> length (uploadedImages (handleImageUpload files evs s)) \<le> 10"
  by (cases files) (simp_all add: handleImageUpload_def readFiles_def fold_onloadend_size)

lemma handleImageUpload_complete:
  assumes "length evs = length fs" and "fs \<noteq> [] \<or> length (uploadedImages s) \<le> 10"
  shows "handleImageUpload (Some fs) evs s =
           s\<lparr>uploadedImages := take 10 (uploadedImages s @ map newImage evs)\<rparr>"
proof (cases "evs = []")
  case True
  with assms show ?thesis by (simp add: handleImageUpload_def readFiles_def)
next
  case False
  with assms(1) fold_onloadend_complete [of "[]" evs fs s] show ?thesis
    by (simp add: handleImageUpload_def readFiles_def)
qed

lemma handleImageUpload_pending:
  "length evs < length fs \<Longrightarrow> handleImageUpload (Some fs) evs s = s"
  using fold_onloadend_pending [of "[]" evs fs s]
  by (simp add: handleImageUpload_def readFiles_def)

lemma one_image_eq:
  "one_image = \<lparr>uploadedImages = [newImage png_read], estimationResult = None,
     isLoading = False, error = None\<rparr>"
  by (simp add: one_image_def handleImageUpload_def readFiles_def onloadend_def initial_def
      Let_def)

section \<open>Removal\<close>

text \<open>
  Claim C7. Removing an id that no image of the collection carries leaves the state as it
  is, and removing twice is removing once. Where the ids of the collection are pairwise
  different (they are values of \<^verbatim>\<open>crypto.randomUUID()\<close>), removing the id of an image
  deletes that image and nothing else: the images before it and after it stay, in their
  order. No other cell of the state changes.
\<close>

theorem handleRemoveImage_removes:
  "(imageId \<notin> id' ` set (uploadedImages s) \<longrightarrow> handleRemoveImage imageId s = s)
   \<and> handleRemoveImage imageId (handleRemoveImage imageId s) = handleRemoveImage imageId s
   \<and> (\<forall>xs img ys. distinct (map id' (uploadedImages s)) \<and> uploadedImages s = xs @ img # ys \<and> id' img = imageId
        \<longrightarrow> handleRemoveImage imageId s = s\<lparr>uploadedImages := xs @ ys\<rparr>)"
  by (auto simp: handleRemoveImage_def filter_other_ids)

theorem handleRemoveImage_removes_witness:
  "handleRemoveImage ''id-9'' one_image = one_image
   \<and> uploadedImages (handleRemoveImage ''id-1'' one_image) = []"
proof -
  have absent: "''id-9'' \<notin> id' ` set (uploadedImages one_image)"
    by (simp add: one_image_eq newImage_def png_read_def)
  have present: "distinct (map id' (uploadedImages one_image))
      \<and> uploadedImages one_image = [] @ newImage png_read # [] \<and> id' (newImage png_read) = ''id-1''"
    by (simp add: one_image_eq newImage_def png_read_def)
  from handleRemoveImage_removes [of "''id-9''" one_image] absent
  have "handleRemoveImage ''id-9'' one_image = one_image" by blast
  moreover from handleRemoveImage_removes [of "''id-1''" one_image] present
  have "handleRemoveImage ''id-1'' one_image = one_image\<lparr>uploadedImages := [] @ []\<rparr>" by blast
  ultimately show ?thesis by simp
qed

section \<open>An estimate request without images\<close>

text \<open>
  Claim C2. When the collection is empty, \<^verbatim>\<open>getEstimate\<close> returns before its
  \<^verbatim>\<open>await\<close>: the network client is not called (no request is made, whatever the
  environment), the validation message is stored in \<open>error\<close>, and \<open>isLoading\<close> keeps the
  value it had, so the Loading phase is not entered.
\<close>

theorem getEstimate_no_images:
  "uploadedImages s = [] \<Longrightarrow>
     getEstimate_sync e s = Done (s\<lparr>error := Some NO_IMAGES_MESSAGE\<rparr>)
     \<and> request (getEstimate_sync e s) = None
     \<and> getEstimate e s = s\<lparr>error := Some NO_IMAGES_MESSAGE\<rparr>
     \<and> isLoading (getEstimate e s) = isLoading s"
  by (simp add: getEstimate_def getEstimate_sync_def request_def)

theorem getEstimate_no_images_witness:
  "uploadedImages initial = []
   \<and> request (getEstimate_sync with_key initial) = None
   \<and> error (getEstimate with_key initial) = Some NO_IMAGES_MESSAGE
   \<and> isLoading (getEstimate with_key initial) = False"
proof -
  have empty: "uploadedImages initial = []" by (simp add: initial_def)
  have "isLoading initial = False" by (simp add: initial_def)
  with getEstimate_no_images [OF empty, of with_key] empty show ?thesis
    by (simp add: request_def)
qed

section \<open>The estimate flow leaves the images alone\<close>

lemma getEstimate_sync_images: "uploadedImages (state_of (getEstimate_sync e s)) = uploadedImages s"
  by (simp add: getEstimate_sync_def state_of_def Let_def catch_block_def finally_block_def
      split: sum.split thrown.split)

lemma getEstimate_resume_images: "uploadedImages (getEstimate_resume r s) = uploadedImages s"
  by (simp add: getEstimate_resume_def catch_block_def finally_block_def
      split: sum.split thrown.split)

lemma getEstimate_images: "uploadedImages (getEstimate e s) = uploadedImages s"
  using getEstimate_sync_images [of e s]
  by (cases "getEstimate_sync e s")
    (simp_all add: getEstimate_def state_of_def getEstimate_resume_images)

text \<open>
  Claim C10. A run of \<^verbatim>\<open>getEstimate\<close> never changes \<open>uploadedImages\<close>: not in a whole
  run (validation message, success or failure of the call), not in the state in which it
  returns early or waits for the call, and not in the part that runs when the call
  settles.
\<close>

theorem getEstimate_keeps_images:
  "uploadedImages (getEstimate e s) = uploadedImages s
   \<and> uploadedImages (state_of (getEstimate_sync e s)) = uploadedImages s
   \<and> uploadedImages (getEstimate_resume r s) = uploadedImages s"
  by (simp add: getEstimate_images getEstimate_sync_images getEstimate_resume_images)

section \<open>Uploads\<close>

lemma handleRemoveImage_size:
  "length (uploadedImages s) \<le> 10 \<Longrightarrow> length (uploadedImages (handleRemoveImage imageId s)) \<le> 10"
  by (simp add: handleRemoveImage_def le_trans [OF length_filter_le])

text \<open>
  Claim C3. When every reader of a batch has fired its \<^verbatim>\<open>loadend\<close> event, the collection
  is the prior collection followed by the images of the batch, cut to its first ten
  entries; what exceeds ten is dropped without a word (\<open>error\<close> and the other cells
  keep their values). The prior collection is any collection when the batch has a file,
  and any collection of at most ten images when the batch is empty (no callback runs
  then). A collection of at most ten images has at most ten images after an upload
  (finished or not), after a removal and after an estimate request; it is empty at the
  start.
\<close>

theorem handleImageUpload_appends:
  "length evs = length fs \<Longrightarrow> fs \<noteq> [] \<or> length (uploadedImages s) \<le> 10 \<Longrightarrow>
     handleImageUpload (Some fs) evs s =
       s\<lparr>uploadedImages := take 10 (uploadedImages s @ map newImage evs)\<rparr>
     \<and> error (handleImageUpload (Some fs) evs s) = error s
     \<and> length (uploadedImages (handleImageUpload (Some fs) evs s)) \<le> 10
     \<and> length (uploadedImages initial) \<le> 10
     \<and> (length (uploadedImages s) \<le> 10 \<longrightarrow>
          length (uploadedImages (handleImageUpload files evs' s)) \<le> 10
          \<and> length (uploadedImages (handleRemoveImage imageId s)) \<le> 10
          \<and> length (uploadedImages (getEstimate e s)) \<le> 10)"
  using getEstimate_images [of e s]
  by (simp add: handleImageUpload_complete handleImageUpload_size handleRemoveImage_size
      initial_def)

theorem handleImageUpload_appends_witness:
  "uploadedImages (handleImageUpload (Some [png, jpg]) [png_read, jpg_read] one_image)
     = [newImage png_read, newImage png_read, newImage jpg_read]
   \<and> length (uploadedImages (handleImageUpload (Some (map target twelve)) twelve one_image)) = 10
   \<and> error (handleImageUpload (Some (map target twelve)) twelve one_image) = None"
proof -
  have small: "length (uploadedImages one_image) \<le> 10" by (simp add: one_image_eq)
  have a: "length [png_read, jpg_read] = length [png, jpg]" by simp
  have b: "length twelve = length (map target twelve)" by simp
  from handleImageUpload_appends [OF a, of one_image] small
  have "handleImageUpload (Some [png, jpg]) [png_read, jpg_read] one_image =
       one_image\<lparr>uploadedImages := take 10 (uploadedImages one_image @ map newImage [png_read, jpg_read])\<rparr>"
    by blast
  moreover from handleImageUpload_appends [OF b, of one_image] small
  have "handleImageUpload (Some (map target twelve)) twelve one_image =
       one_image\<lparr>uploadedImages := take 10 (uploadedImages one_image @ map newImage twelve)\<rparr>"
    by blast
  ultimately show ?thesis by (simp add: one_image_eq twelve_def)
qed

subsection \<open>Order of the appended images\<close>

lemma drop_take_append: "drop (length xs) (take n (xs @ ys)) = take (n - length xs) ys"
  by (cases "length xs \<le> n") simp_all

lemma file_newImage: "map file (map newImage evs) = map target evs"
  by (induction evs) (simp_all add: newImage_def)

text \<open>
  The callbacks push onto \<^verbatim>\<open>newImages\<close> in the order in which the reads finish. Two
  files submitted as \<open>png, jpg\<close> whose reads finish as \<open>jpg, png\<close> are appended as
  \<open>jpg, png\<close>: the submission order is not restored.
\<close>

theorem handleImageUpload_order_counterexample:
  "map file (uploadedImages (handleImageUpload (Some [png, jpg]) [jpg_read, png_read] initial))
     = [jpg, png]
   \<and> [jpg, png] \<noteq> [png, jpg]"
  by (simp add: handleImageUpload_def readFiles_def onloadend_def Let_def initial_def
      newImage_def jpg_read_def png_read_def png_def jpg_def)

text \<open>
  Claim C4, as the code has it. The images a finished batch appends are in the order in
  which the reads of their files finished (as many of them as fit under the cap of ten).
  That is the submission order whenever the reads finish in submission order.
\<close>

theorem handleImageUpload_completion_order:
  "length evs = length fs \<Longrightarrow> fs \<noteq> [] \<or> length (uploadedImages s) \<le> 10 \<Longrightarrow>
     map file (drop (length (uploadedImages s)) (uploadedImages (handleImageUpload (Some fs) evs s)))
       = take (10 - length (uploadedImages s)) (map target evs)
     \<and> (map target evs = fs \<longrightarrow>
          map file (drop (length (uploadedImages s)) (uploadedImages (handleImageUpload (Some fs) evs s)))
            = take (10 - length (uploadedImages s)) fs)"
proof -
  assume "length evs = length fs" and "fs \<noteq> [] \<or> length (uploadedImages s) \<le> 10"
  then have "uploadedImages (handleImageUpload (Some fs) evs s)
      = take 10 (uploadedImages s @ map newImage evs)"
    by (simp add: handleImageUpload_complete)
  then have "map file (drop (length (uploadedImages s)) (uploadedImages (handleImageUpload (Some fs) evs s)))
       = take (10 - length (uploadedImages s)) (map target evs)"
    by (simp only: drop_take_append take_map file_newImage)
  then show ?thesis by simp
qed

theorem handleImageUpload_completion_order_witness:
  "map file (drop (length (uploadedImages one_image))
      (uploadedImages (handleImageUpload (Some [png, jpg]) [jpg_read, png_read] one_image)))
     = [jpg, png]
   \<and> map file (drop (length (uploadedImages one_image))
      (uploadedImages (handleImageUpload (Some [png, jpg]) [png_read, jpg_read] one_image)))
     = [png, jpg]"
proof -
  have a: "length [jpg_read, png_read] = length [png, jpg]" by simp
  have b: "length [png_read, jpg_read] = length [png, jpg]" by simp
  have c: "[png, jpg] \<noteq> [] \<or> length (uploadedImages one_image) \<le> 10" by simp
  have d: "map target [png_read, jpg_read] = [png, jpg]" by (simp add: png_read_def jpg_read_def)
  from handleImageUpload_completion_order [OF a c]
  have "map file (drop (length (uploadedImages one_image))
      (uploadedImages (handleImageUpload (Some [png, jpg]) [jpg_read, png_read] one_image)))
     = take (10 - length (uploadedImages one_image)) (map target [jpg_read, png_read])"
    by blast
  moreover from handleImageUpload_completion_order [OF b c] d
  have "map file (drop (length (uploadedImages one_image))
      (uploadedImages (handleImageUpload (Some [png, jpg]) [png_read, jpg_read] one_image)))
     = take (10 - length (uploadedImages one_image)) [png, jpg]"
    by blast
  ultimately show ?thesis by (simp add: one_image_eq png_read_def jpg_read_def)
qed

subsection \<open>Failed reads\<close>

text \<open>
  A reader fires \<^verbatim>\<open>loadend\<close> after a failed read too, with \<^verbatim>\<open>reader.result\<close> being
  \<^verbatim>\<open>null\<close>, and the callback pushes an image all the same. With \<open>png, jpg\<close> submitted
  and the read of \<open>png\<close> failing, the batch completes with two images, the first without a
  preview; with only the read of \<open>jpg\<close> finished (one successful decode as well) it does
  not complete. The test \<^verbatim>\<open>newImages.length === files.length\<close> counts every finished
  read against the size of the selection.
\<close>

theorem handleImageUpload_failed_read_counterexample:
  "result png_failed = None
   \<and> uploadedImages (handleImageUpload (Some [png, jpg]) [png_failed, jpg_read] initial)
       = [\<lparr>id' = ''id-3'', file = png, preview = None\<rparr>,
          \<lparr>id' = ''id-2'', file = jpg, preview = Some ''data:image/jpeg;base64,/9j/4A==''\<rparr>]
   \<and> uploadedImages (handleImageUpload (Some [png, jpg]) [jpg_read] initial) = []"
  by (simp add: handleImageUpload_def readFiles_def onloadend_def Let_def initial_def
      newImage_def png_failed_def jpg_read_def)

text \<open>
  Claim C5, as the code has it. A failed read does not hold up the other files of its
  batch: once every reader has fired \<^verbatim>\<open>loadend\<close>, successfully or not, the batch
  completes, and (where the cap of ten is not reached) every file that was read
  successfully has its image, with its data URL, in the collection. The completion test
  compares the number of finished reads with the size of the selection: as long as fewer
  reads have finished, the state is unchanged.
\<close>

theorem handleImageUpload_siblings:
  "length evs = length fs \<Longrightarrow> length (uploadedImages s) + length fs \<le> 10 \<Longrightarrow>
     (\<forall>ev \<in> set evs. \<forall>url. result ev = Some url \<longrightarrow>
        \<lparr>id' = uuid ev, file = target ev, preview = Some url\<rparr>
          \<in> set (uploadedImages (handleImageUpload (Some fs) evs s)))
     \<and> (\<forall>evs'. length evs' < length fs \<longrightarrow> handleImageUpload (Some fs) evs' s = s)"
proof -
  assume len: "length evs = length fs" and cap: "length (uploadedImages s) + length fs \<le> 10"
  then have eq: "uploadedImages (handleImageUpload (Some fs) evs s)
      = uploadedImages s @ map newImage evs"
    by (simp add: handleImageUpload_complete)
  have "\<lparr>id' = uuid ev, file = target ev, preview = Some url\<rparr> \<in> set (map newImage evs)"
    if "ev \<in> set evs" and "result ev = Some url" for ev url
  proof -
    from that(2) have "newImage ev = \<lparr>id' = uuid ev, file = target ev, preview = Some url\<rparr>"
      by (simp add: newImage_def)
    with that(1) show ?thesis by (metis image_eqI set_map)
  qed
  with eq len show ?thesis by (simp add: handleImageUpload_pending)
qed

theorem handleImageUpload_siblings_witness:
  "\<lparr>id' = ''id-2'', file = jpg, preview = Some ''data:image/jpeg;base64,/9j/4A==''\<rparr>
     \<in> set (uploadedImages (handleImageUpload (Some [png, jpg]) [png_failed, jpg_read] initial))
   \<and> handleImageUpload (Some [png, jpg]) [png_failed] initial = initial"
proof -
  have a: "length [png_failed, jpg_read] = length [png, jpg]" by simp
  have b: "length (uploadedImages initial) + length [png, jpg] \<le> 10" by (simp add: initial_def)
  have c: "jpg_read \<in> set [png_failed, jpg_read]
      \<and> result jpg_read = Some ''data:image/jpeg;base64,/9j/4A==''
      \<and> uuid jpg_read = ''id-2'' \<and> target jpg_read = jpg"
    by (simp add: jpg_read_def)
  have d: "length [png_failed] < length [png, jpg]" by simp
  note inst = handleImageUpload_siblings [OF a b]
  from inst c have "\<lparr>id' = ''id-2'', file = jpg, preview = Some ''data:image/jpeg;base64,/9j/4A==''\<rparr>
     \<in> set (uploadedImages (handleImageUpload (Some [png, jpg]) [png_failed, jpg_read] initial))"
    by metis
  moreover from inst d have "handleImageUpload (Some [png, jpg]) [png_failed] initial = initial"
    by blast
  ultimately show ?thesis by simp
qed

section \<open>The request payload\<close>






lemma one_image_sync:
  "getEstimate_sync with_key one_image =
     Awaiting (one_image\<lparr>isLoading := True\<rparr>) ''prompt''
       [\<lparr>inlineData = \<lparr>mimeType = ''image/png'', data = Some ''iVBORw==''\<rparr>\<rparr>]"
  by (simp add: getEstimate_sync_def one_image_eq with_key_def falsy_def imagePart_def
      newImage_def png_read_def png_def at_def Let_def)





subsection \<open>The payload depends on the images and the instruction text only\<close>

lemma map_throw_imagePart_env:
  "(case map_throw (imagePart e1) imgs of Inl err \<Rightarrow> None | Inr ys \<Rightarrow> Some ys)
     = (case map_throw (imagePart e2) imgs of Inl err \<Rightarrow> None | Inr ys \<Rightarrow> Some ys)"
proof (induction imgs)
  case Nil
  show ?case by simp
next
  case (Cons img imgs)
  show ?case
  proof (cases "preview img")
    case None
    then show ?thesis by (simp add: imagePart_def)
  next
    case (Some p)
    then have "imagePart e1 img = imagePart e2 img" by (simp add: imagePart_def)
    with Cons.IH Some show ?thesis
      by (simp add: imagePart_def split: sum.splits)
  qed
qed

lemma request_getEstimate_sync:
  "request (getEstimate_sync e s) =
     (if uploadedImages s = [] then None
      else (case map_throw (imagePart e) (uploadedImages s) of
              Inl err \<Rightarrow> None
            | Inr imageParts \<Rightarrow> Some (DEMOLITION_ESTIMATE_PROMPT e, imageParts)))"
  by (simp add: getEstimate_sync_def request_def Let_def split: sum.splits)

text \<open>
  Claim C8. The arguments with which \<^verbatim>\<open>getEstimate\<close> calls the network client (or the
  fact that it makes no call) are determined by the instruction text and the ordered
  image collection: two runs, in any two states that hold the same collection and in any
  two environments with the same instruction text, make the same call. The other state
  cells, the API key and the engine play no part.
\<close>

theorem request_deterministic:
  "uploadedImages s1 = uploadedImages s2 \<Longrightarrow>
   DEMOLITION_ESTIMATE_PROMPT e1 = DEMOLITION_ESTIMATE_PROMPT e2 \<Longrightarrow>
     request (getEstimate_sync e1 s1) = request (getEstimate_sync e2 s2)"
  using map_throw_imagePart_env [of e1 "uploadedImages s2" e2]
  by (simp add: request_getEstimate_sync split: sum.splits)

theorem request_deterministic_witness:
  "uploadedImages one_image = uploadedImages (one_image\<lparr>error := Some ''old''\<rparr>)
   \<and> DEMOLITION_ESTIMATE_PROMPT with_key = DEMOLITION_ESTIMATE_PROMPT without_key
   \<and> request (getEstimate_sync without_key (one_image\<lparr>error := Some ''old''\<rparr>))
       = Some (''prompt'', [\<lparr>inlineData = \<lparr>mimeType = ''image/png'', data = Some ''iVBORw==''\<rparr>\<rparr>])"
proof -
  have a: "uploadedImages one_image = uploadedImages (one_image\<lparr>error := Some ''old''\<rparr>)" by simp
  have b: "DEMOLITION_ESTIMATE_PROMPT with_key = DEMOLITION_ESTIMATE_PROMPT without_key"
    by (simp add: without_key_def)
  from request_deterministic [OF a b] a b show ?thesis
    by (simp add: one_image_sync request_def)
qed

section \<open>The estimate flow\<close>

lemma getEstimate_sync_with_key:
  "uploadedImages s \<noteq> [] \<Longrightarrow> \<not> falsy (VITE_GEMINI_API_KEY e) \<Longrightarrow>
   getEstimate_sync e s =
     (case map_throw (imagePart e) (uploadedImages s) of
        Inl err \<Rightarrow> Done (finally_block (catch_block err
                    (s\<lparr>isLoading := True, error := None, estimationResult := None\<rparr>)))
      | Inr imageParts \<Rightarrow>
          Awaiting (s\<lparr>isLoading := True, error := None, estimationResult := None\<rparr>)
            (DEMOLITION_ESTIMATE_PROMPT e) imageParts)"
  by (simp add: getEstimate_sync_def Let_def)

lemma map_throw_imagePart_Inr:
  "\<forall>img \<in> set imgs. preview img \<noteq> None \<Longrightarrow>
     \<exists>imageParts. map_throw (imagePart e) imgs = Inr imageParts"
  by (induction imgs) (auto simp: imagePart_def)

text \<open>
  The check of \<^verbatim>\<open>VITE_GEMINI_API_KEY\<close> sets the error message and resets \<open>isLoading\<close>,
  and does not return (its \<^verbatim>\<open>return\<close> is commented out). Without a key, with one
  image, the call is made, and while it is outstanding the component is not loading and
  holds the key message: it has not entered the Loading phase with the error cleared.
\<close>

theorem getEstimate_without_key_counterexample:
  "uploadedImages one_image \<noteq> []
   \<and> request (getEstimate_sync without_key one_image) =
       Some (''prompt'', [\<lparr>inlineData = \<lparr>mimeType = ''image/png'', data = Some ''iVBORw==''\<rparr>\<rparr>])
   \<and> isLoading (state_of (getEstimate_sync without_key one_image)) = False
   \<and> error (state_of (getEstimate_sync without_key one_image)) = Some API_KEY_MESSAGE"
  by (simp add: getEstimate_sync_def request_def state_of_def one_image_eq without_key_def
      with_key_def falsy_def imagePart_def newImage_def png_read_def png_def at_def Let_def)

text \<open>
  Claim C1, as the code has it. With a non-empty collection and the key configured, while
  the network call of a run of \<^verbatim>\<open>getEstimate\<close> is outstanding the component is in the
  Loading state, the prior result and error cleared. When the call succeeds the state is
  no longer loading, holds the result text and no error; when the call rejects with an
  \<^verbatim>\<open>Error\<close> the state is no longer loading, holds the message prefix followed by the
  error's own message, and no result. The call is made whenever every image has a
  preview.
\<close>

theorem getEstimate_flow:
  "uploadedImages s \<noteq> [] \<Longrightarrow> \<not> falsy (VITE_GEMINI_API_KEY e) \<Longrightarrow>
     (\<forall>s' prompt imageParts. getEstimate_sync e s = Awaiting s' prompt imageParts \<longrightarrow>
        s' = s\<lparr>isLoading := True, error := None, estimationResult := None\<rparr>
        \<and> (\<forall>resultText. getEstimate_resume (Inr resultText) s' =
              s\<lparr>isLoading := False, error := None,
                estimationResult := Some \<lparr>text' = resultText\<rparr>\<rparr>)
        \<and> (\<forall>message. getEstimate_resume (Inl (Error message)) s' =
              s\<lparr>isLoading := False, error := Some (ERROR_MESSAGE_PREFIX @ message),
                estimationResult := None\<rparr>))
     \<and> ((\<forall>img \<in> set (uploadedImages s). preview img \<noteq> None) \<longrightarrow>
          (\<exists>s' prompt imageParts. getEstimate_sync e s = Awaiting s' prompt imageParts))"
proof -
  assume images: "uploadedImages s \<noteq> []" and key: "\<not> falsy (VITE_GEMINI_API_KEY e)"
  note sync = getEstimate_sync_with_key [OF images key]
  have waiting: "s' = s\<lparr>isLoading := True, error := None, estimationResult := None\<rparr>"
    if "getEstimate_sync e s = Awaiting s' prompt imageParts" for s' prompt imageParts
    using that sync by (simp split: sum.splits)
  have settled: "getEstimate_resume (Inr resultText)
        (s\<lparr>isLoading := True, error := None, estimationResult := None\<rparr>) =
      s\<lparr>isLoading := False, error := None, estimationResult := Some \<lparr>text' = resultText\<rparr>\<rparr>"
    for resultText
    by (simp add: getEstimate_resume_def finally_block_def)
  have rejected: "getEstimate_resume (Inl (Error message))
        (s\<lparr>isLoading := True, error := None, estimationResult := None\<rparr>) =
      s\<lparr>isLoading := False, error := Some (ERROR_MESSAGE_PREFIX @ message),
        estimationResult := None\<rparr>"
    for message
    by (simp add: getEstimate_resume_def catch_block_def finally_block_def)
  have called: "\<exists>s' prompt imageParts. getEstimate_sync e s = Awaiting s' prompt imageParts"
    if "\<forall>img \<in> set (uploadedImages s). preview img \<noteq> None"
  proof -
    from map_throw_imagePart_Inr [OF that, of e] obtain imageParts
      where "map_throw (imagePart e) (uploadedImages s) = Inr imageParts" by blast
    with sync show ?thesis by simp
  qed
  from waiting settled rejected called show ?thesis by blast
qed

theorem getEstimate_flow_witness:
  "uploadedImages one_image \<noteq> [] \<and> \<not> falsy (VITE_GEMINI_API_KEY with_key)
   \<and> getEstimate_sync with_key one_image = Awaiting (one_image\<lparr>isLoading := True\<rparr>) ''prompt''
       [\<lparr>inlineData = \<lparr>mimeType = ''image/png'', data = Some ''iVBORw==''\<rparr>\<rparr>]
   \<and> getEstimate_resume (Inr ''estimate'') (one_image\<lparr>isLoading := True\<rparr>)
       = one_image\<lparr>estimationResult := Some \<lparr>text' = ''estimate''\<rparr>\<rparr>
   \<and> getEstimate_resume (Inl (Error ''offline'')) (one_image\<lparr>isLoading := True\<rparr>)
       = one_image\<lparr>error := Some (ERROR_MESSAGE_PREFIX @ ''offline'')\<rparr>"
proof -
  have images: "uploadedImages one_image \<noteq> []" by (simp add: one_image_eq)
  have key: "\<not> falsy (VITE_GEMINI_API_KEY with_key)" by (simp add: with_key_def falsy_def)
  have cells: "isLoading one_image = False \<and> error one_image = None \<and> estimationResult one_image = None"
    by (simp add: one_image_eq)
  from getEstimate_flow [OF images key] one_image_sync
  have "getEstimate_resume (Inr ''estimate'') (one_image\<lparr>isLoading := True\<rparr>) =
          one_image\<lparr>isLoading := False, error := None,
            estimationResult := Some \<lparr>text' = ''estimate''\<rparr>\<rparr>"
    and "getEstimate_resume (Inl (Error ''offline'')) (one_image\<lparr>isLoading := True\<rparr>) =
          one_image\<lparr>isLoading := False, error := Some (ERROR_MESSAGE_PREFIX @ ''offline''),
            estimationResult := None\<rparr>"
    by blast+
  with images key one_image_sync cells show ?thesis by simp
qed

section \<open>Result and error\<close>

lemma handleRemoveImage_frame:
  "estimationResult (handleRemoveImage imageId s) = estimationResult s \<and>
   isLoading (handleRemoveImage imageId s) = isLoading s \<and>
   error (handleRemoveImage imageId s) = error s"
  by (simp add: handleRemoveImage_def)

lemma getEstimate_resume_cleared:
  "estimationResult s = None \<Longrightarrow> error s = None \<Longrightarrow>
     \<not> isLoading (getEstimate_resume r s)
     \<and> (estimationResult (getEstimate_resume r s) = None \<or> error (getEstimate_resume r s) = None)"
  by (simp add: getEstimate_resume_def catch_block_def finally_block_def
      split: sum.split thrown.split)

lemma getEstimate_resume_rejected:
  "estimationResult (getEstimate_resume (Inl err) s) = estimationResult s
   \<and> \<not> isLoading (getEstimate_resume (Inl err) s)"
  by (simp add: getEstimate_resume_def catch_block_def finally_block_def split: thrown.split)

lemma getEstimate_sync_Done:
  "uploadedImages s \<noteq> [] \<Longrightarrow> getEstimate_sync e s = Done s' \<Longrightarrow>
     \<not> isLoading s' \<and> estimationResult s' = None"
  by (auto simp: getEstimate_sync_def Let_def catch_block_def finally_block_def
      split: sum.splits thrown.splits if_splits)

lemma getEstimate_sync_Awaiting_with_key:
  "uploadedImages s \<noteq> [] \<Longrightarrow> \<not> falsy (VITE_GEMINI_API_KEY e) \<Longrightarrow>
   getEstimate_sync e s = Awaiting s' prompt imageParts \<Longrightarrow>
     isLoading s' \<and> estimationResult s' = None \<and> error s' = None"
  by (auto simp: getEstimate_sync_with_key split: sum.splits)

lemma getEstimate_sync_Awaiting_without_key:
  "falsy (VITE_GEMINI_API_KEY e) \<Longrightarrow> getEstimate_sync e s = Awaiting s' prompt imageParts \<Longrightarrow>
     \<not> isLoading s' \<and> estimationResult s' = None"
  by (auto simp: getEstimate_sync_def Let_def split: sum.splits if_splits)

text \<open>With the key: a call is outstanding exactly while the component is loading.\<close>

lemma reachable_with_key:
  assumes key: "\<not> falsy (VITE_GEMINI_API_KEY e)" and "reachable e c"
  shows "(isLoading (st c) \<longleftrightarrow> outstanding c = 1) \<and> outstanding c \<le> 1
    \<and> (isLoading (st c) \<longrightarrow> estimationResult (st c) = None \<and> error (st c) = None)
    \<and> (estimationResult (st c) = None \<or> error (st c) = None)"
  using assms(2)
proof (induction rule: reachable.induct)
  case start
  show ?case by (simp add: initial_def)
next
  case (upload c files evs)
  then show ?case by (simp add: handleImageUpload_frame)
next
  case (remove c imageId)
  then show ?case by (simp add: handleRemoveImage_frame)
next
  case (click_returns c s')
  from getEstimate_sync_Done [OF click_returns.hyps(3,4)]
    click_returns.hyps(2) click_returns.IH
  show ?case by simp
next
  case (click_awaits c s' prompt imageParts)
  from getEstimate_sync_Awaiting_with_key [OF click_awaits.hyps(3) key click_awaits.hyps(4)]
    click_awaits.hyps(2) click_awaits.IH
  show ?case by simp
next
  case (settle c r)
  from settle.IH settle.hyps(2) have one: "outstanding c = 1"
    and "estimationResult (st c) = None" and "error (st c) = None"
    by auto
  from getEstimate_resume_cleared [OF this(2,3), of r] one show ?case by simp
qed

text \<open>Without the key: no call yields a text, so there is never a result, nor a loading state.\<close>

lemma reachable_without_key:
  assumes nokey: "falsy (VITE_GEMINI_API_KEY e)" and "reachable e c"
  shows "estimationResult (st c) = None \<and> \<not> isLoading (st c)"
  using assms(2)
proof (induction rule: reachable.induct)
  case start
  show ?case by (simp add: initial_def)
next
  case (upload c files evs)
  then show ?case by (simp add: handleImageUpload_frame)
next
  case (remove c imageId)
  then show ?case by (simp add: handleRemoveImage_frame)
next
  case (click_returns c s')
  from getEstimate_sync_Done [OF click_returns.hyps(3,4)] show ?case by simp
next
  case (click_awaits c s' prompt imageParts)
  from getEstimate_sync_Awaiting_without_key [OF nokey click_awaits.hyps(4)]
  show ?case by simp
next
  case (settle c r)
  from settle.hyps(3) nokey obtain err where "r = Inl err"
    by (cases r) (simp_all add: client_outcome_def)
  with settle.IH getEstimate_resume_rejected [of err "st c"] show ?case by simp
qed

lemma reachable_one_image: "reachable e \<lparr>st = one_image, outstanding = 0\<rparr>"
  using reachable.upload [OF reachable.start, of e "Some [png]" "[png_read]"]
  by (simp add: one_image_def)

lemma getEstimate_one_image:
  "getEstimate with_key one_image =
     getEstimate_resume (Inr ''estimate'') (one_image\<lparr>isLoading := True\<rparr>)"
proof -
  have "generateDemolitionEstimate with_key prompt imageParts = Inr ''estimate''"
    for prompt imageParts
    by (simp add: with_key_def)
  then show ?thesis by (simp add: getEstimate_def one_image_sync)
qed

lemma reachable_with_key_estimate:
  "reachable with_key \<lparr>st = getEstimate with_key one_image, outstanding = 0\<rparr>"
proof -
  have free: "\<not> isLoading (st \<lparr>st = one_image, outstanding = 0\<rparr>)
      \<and> uploadedImages (st \<lparr>st = one_image, outstanding = 0\<rparr>) \<noteq> []"
    by (simp add: one_image_eq)
  have sync: "getEstimate_sync with_key (st \<lparr>st = one_image, outstanding = 0\<rparr>) =
      Awaiting (one_image\<lparr>isLoading := True\<rparr>) ''prompt''
        [\<lparr>inlineData = \<lparr>mimeType = ''image/png'', data = Some ''iVBORw==''\<rparr>\<rparr>]"
    by (simp add: one_image_sync)
  from free have "reachable with_key \<lparr>st = one_image\<lparr>isLoading := True\<rparr>, outstanding = Suc 0\<rparr>"
    using reachable.click_awaits [OF reachable_one_image _ _ sync] by simp
  moreover have "client_outcome with_key (Inr ''estimate'')"
    by (simp add: client_outcome_def with_key_def falsy_def)
  ultimately have "reachable with_key
      \<lparr>st = getEstimate_resume (Inr ''estimate'') (one_image\<lparr>isLoading := True\<rparr>),
       outstanding = 0\<rparr>"
    using reachable.settle [of with_key
        "\<lparr>st = one_image\<lparr>isLoading := True\<rparr>, outstanding = Suc 0\<rparr>" "Inr ''estimate''"]
    by simp
  then show ?thesis by (simp add: getEstimate_one_image)
qed

text \<open>
  Claim C6. No state the component can reach holds a result and an error together, and
  a loading state holds neither. The states it can reach are those of the transition
  system above: from the initial state by uploads, by removals and estimate requests
  while the controls for them are enabled, and by the settling of outstanding calls, a
  call yielding a text only when the credential is present (the client as the
  specification describes it).
\<close>

theorem result_excludes_error:
  "reachable e c \<Longrightarrow>
     \<not> (estimationResult (st c) \<noteq> None \<and> error (st c) \<noteq> None)
     \<and> (isLoading (st c) \<longrightarrow> estimationResult (st c) = None \<and> error (st c) = None)"
proof (cases "falsy (VITE_GEMINI_API_KEY e)")
  case True
  assume "reachable e c"
  from reachable_without_key [OF True this] show ?thesis by simp
next
  case False
  assume "reachable e c"
  from reachable_with_key [OF False this] show ?thesis by auto
qed

theorem result_excludes_error_witness:
  "reachable with_key \<lparr>st = getEstimate with_key one_image, outstanding = 0\<rparr>
   \<and> estimationResult (getEstimate with_key one_image) = Some \<lparr>text' = ''estimate''\<rparr>
   \<and> error (getEstimate with_key one_image) = None"
proof -
  have "estimationResult (getEstimate with_key one_image) = Some \<lparr>text' = ''estimate''\<rparr>"
    by (simp add: getEstimate_one_image getEstimate_resume_def finally_block_def)
  with result_excludes_error [OF reachable_with_key_estimate] reachable_with_key_estimate
  show ?thesis by auto
qed

end
